theory Spec2Isabelle
  imports Main "HOL-Library.Sublist" "HOL-Library.AList"
begin

section \<open>Common data: exceptions, dictionaries\<close>

text \<open>
  The exceptions the modelled code can raise.  \<open>Raised\<close> stands for any exception
  that comes out of code of the package that is not part of the verified sources
  (the constructors of \<open>Job\<close> and \<open>SubmittedScript\<close>).
\<close>

datatype py_error =
    ValueError
  | IndexError
  | AttributeError
  | UnboundLocalError
  | FileNotFoundError
  | FileExistsError
  | NotADirectoryError
  | KeyError
  | Raised string

text \<open>
  A Python \<open>dict\<close> keeps its keys in insertion order; it is modelled as an association
  list.  \<open>dict_of\<close> is the constructor \<open>dict(pairs)\<close>: a key met a second time keeps its
  place and takes the later value.
\<close>

type_synonym ('k, 'v) dict = "('k \<times> 'v) list"

definition dict_of :: "('k \<times> 'v) list \<Rightarrow> ('k, 'v) dict" where
  "dict_of ps = foldl (\<lambda>d (k, v). AList.update k v d) [] ps"

definition keys :: "('k, 'v) dict \<Rightarrow> 'k list" where
  "keys d = map fst d"

definition vals :: "('k, 'v) dict \<Rightarrow> 'v list" where
  "vals d = map snd d"

section \<open>senderscripts/batchsend.py: the batch of jobs\<close>

text \<open>
  \<open>itertools.product(*vals)\<close>: the tuples of the Cartesian product, the rightmost
  position advancing fastest; with no argument it yields the empty tuple once.
\<close>

fun it_product :: "'a list list \<Rightarrow> 'a list list" where
  "it_product [] = [[]]"
| "it_product (xs # xss) = concat (map (\<lambda>x. map ((#) x) (it_product xss)) xs)"

text \<open>
  The attributes of a \<open>BatchSender\<close>.  \<open>jobs\<close> and \<open>storage\<close> are \<open>None\<close> until
  \<open>prepare_jobs\<close> and \<open>prepare_folders\<close> assign them; \<open>subdirs_dict\<close> holds the
  attributes \<open>tmp\<close>, \<open>log\<close>, \<open>results\<close>, \<open>log_deps\<close> that \<open>prepare_folders\<close> merges
  into the instance dictionary.
\<close>

record ('v, 'r, 'j) BatchSender =
  params :: "(string, 'v list) dict"
  syspar_keys :: "string list"
  modpar_keys :: "string list"
  auxpar_keys :: "string list"
  cmd_opt :: "string list"
  slurm_opt :: "string list"
  redef :: 'r
  jobs :: "'j list option"
  storage :: "string option"
  subdirs_dict :: "(string, string) dict"

text \<open>
  The class \<open>Job\<close> (module \<open>prepjob\<close>) is not among the verified sources.  Its
  constructor is a parameter of the model: a function of the five arguments
  \<open>prepare_jobs\<close> passes, that returns the job or raises.
\<close>

type_synonym ('v, 'r, 'j) job_ctor =
  "(string, 'v) dict \<Rightarrow> string list \<Rightarrow> string list \<Rightarrow> string list \<Rightarrow> 'r \<Rightarrow> py_error + 'j"

text \<open>The body of the \<open>for\<close> loop of \<open>prepare_jobs\<close>, over the tuples still to come.\<close>

fun prepare_jobs_loop ::
  "('v, 'r, 'j) job_ctor \<Rightarrow> ('v, 'r, 'j) BatchSender \<Rightarrow> 'v list list \<Rightarrow> 'j list
     \<Rightarrow> py_error + 'j list" where
  "prepare_jobs_loop Job self [] jobs_acc = Inr jobs_acc"
| "prepare_jobs_loop Job self (i # rest) jobs_acc =
     (let add_items = dict_of (zip (keys (params self)) i) in
      case Job add_items (syspar_keys self) (modpar_keys self) (auxpar_keys self) (redef self) of
        Inl e \<Rightarrow> Inl e
      | Inr job \<Rightarrow> prepare_jobs_loop Job self rest (jobs_acc @ [job]))"

definition prepare_jobs ::
  "('v, 'r, 'j) job_ctor \<Rightarrow> ('v, 'r, 'j) BatchSender \<Rightarrow> py_error + ('v, 'r, 'j) BatchSender" where
  "prepare_jobs Job self =
     (case prepare_jobs_loop Job self (it_product (vals (params self))) [] of
        Inl e \<Rightarrow> Inl e
      | Inr js \<Rightarrow> Inr (self\<lparr>jobs := Some js\<rparr>))"


text \<open>One call of the constructor, for the tuple \<open>i\<close> of the product.\<close>

definition mk_job ::
  "('v, 'r, 'j) job_ctor \<Rightarrow> ('v, 'r, 'j) BatchSender \<Rightarrow> 'v list \<Rightarrow> py_error + 'j" where
  "mk_job Job self i =
     Job (dict_of (zip (keys (params self)) i)) (syspar_keys self) (modpar_keys self)
       (auxpar_keys self) (redef self)"

text \<open>The reserved seed keys, and the two parts of a ParameterSet they separate.\<close>

definition seed_keys :: "string list" where
  "seed_keys = [''min_seed'', ''max_seed'', ''step_seed'']"

definition non_seed :: "(string, 'v list) dict \<Rightarrow> (string, 'v list) dict" where
  "non_seed d = filter (\<lambda>(k, vs). k \<notin> set seed_keys) d"

definition seed_part :: "(string, 'v list) dict \<Rightarrow> (string, 'v list) dict" where
  "seed_part d = filter (\<lambda>(k, vs). k \<in> set seed_keys) d"

text \<open>The product of the lengths of the value lists of a dictionary.\<close>

definition n_tuples :: "(string, 'v list) dict \<Rightarrow> nat" where
  "n_tuples d = prod_list (map (\<lambda>(k, vs). length vs) d)"

subsection \<open>Parameter values and the job of the specification\<close>

text \<open>
  A parameter value is an integer or a float.  A float is kept as the text Python
  prints for it (its shortest decimal that reads back to the same float), which
  identifies it; binary floating point itself is outside the model.
\<close>

datatype pyval = IntV int | FloatV string

text \<open>
  Modelled from the spec: the class \<open>Job\<close> of module \<open>prepjob\<close> is missing from the
  sources.  The specification gives a Job the full key-to-value assignment of one point
  of the product, the three key lists shared by the batch, and the override table; its
  construction is not said to fail.
\<close>

record ('v, 'r) Job =
  job_params :: "(string, 'v) dict"
  job_syspar_keys :: "string list"
  job_modpar_keys :: "string list"
  job_auxpar_keys :: "string list"
  job_redef :: 'r

definition Job_init :: "('v, 'r, ('v, 'r) Job) job_ctor" where
  "Job_init add_items sys_keys mod_keys aux_keys rd =
     Inr \<lparr>job_params = add_items, job_syspar_keys = sys_keys, job_modpar_keys = mod_keys,
          job_auxpar_keys = aux_keys, job_redef = rd\<rparr>"

section \<open>Properties of the expander\<close>

lemma length_it_product: "length (it_product xss) = prod_list (map length xss)"
proof (induction xss)
  case Nil
  show ?case by simp
next
  case (Cons xs xss)
  have "length (concat (map (\<lambda>x. map ((#) x) (it_product xss)) xs))
        = length xs * length (it_product xss)"
    by (induction xs) simp_all
  with Cons show ?case by simp
qed

lemma prepare_jobs_loop_Inr_iff:
  "prepare_jobs_loop Job self ts acc = Inr js \<longleftrightarrow>
     (\<exists>js'. js = acc @ js' \<and> list_all2 (\<lambda>i j. mk_job Job self i = Inr j) ts js')"
proof (induction ts arbitrary: acc)
  case Nil
  show ?case by auto
next
  case (Cons i ts)
  show ?case
  proof (cases "mk_job Job self i")
    case (Inl e)
    then show ?thesis by (auto simp: mk_job_def Let_def list_all2_Cons1)
  next
    case (Inr j)
    then show ?thesis
      by (auto simp: mk_job_def Let_def list_all2_Cons1 Cons.IH)
  qed
qed

lemma prepare_jobs_loop_total:
  "\<forall>i\<in>set ts. \<exists>j. mk_job Job self i = Inr j \<Longrightarrow>
   \<exists>js. prepare_jobs_loop Job self ts acc = Inr js"
proof (induction ts arbitrary: acc)
  case Nil
  show ?case by simp
next
  case (Cons i ts)
  then obtain j where j: "mk_job Job self i = Inr j" by auto
  from Cons obtain js where "prepare_jobs_loop Job self ts (acc @ [j]) = Inr js" by fastforce
  with j show ?case by (auto simp: mk_job_def Let_def)
qed

lemma n_tuples_split: "n_tuples d = n_tuples (non_seed d) * n_tuples (seed_part d)"
  by (induction d) (auto simp: n_tuples_def non_seed_def seed_part_def)

lemma n_tuples_vals: "prod_list (map length (vals d)) = n_tuples d"
  by (induction d) (auto simp: n_tuples_def vals_def)

lemma n_tuples_singletons: "list_all (\<lambda>(k, vs). length vs = 1) d \<Longrightarrow> n_tuples d = 1"
  by (induction d) (auto simp: n_tuples_def)

text \<open>
  Claim C1, as the code has it.  \<open>prepare_jobs\<close> takes the product over the value lists
  of all keys, the seed keys included: when no constructor call raises, the number of
  jobs is the product of the lengths of all value lists, that is the product over the
  non-seed keys times the product over the seed keys.  It is the product over the
  non-seed keys alone when every seed key present has exactly one value.
\<close>

theorem prepare_jobs_count:
  assumes "\<forall>i\<in>set (it_product (vals (params self))). \<exists>j. mk_job Job self i = Inr j"
  shows "\<exists>js. prepare_jobs Job self = Inr (self\<lparr>jobs := Some js\<rparr>) \<and>
           length js = n_tuples (params self) \<and>
           length js = n_tuples (non_seed (params self)) * n_tuples (seed_part (params self)) \<and>
           (list_all (\<lambda>(k, vs). length vs = 1) (seed_part (params self))
              \<longrightarrow> length js = n_tuples (non_seed (params self)))"
proof -
  from prepare_jobs_loop_total [OF assms, of "[]"]
  obtain js where js: "prepare_jobs_loop Job self (it_product (vals (params self))) [] = Inr js"
    by blast
  then have "list_all2 (\<lambda>i j. mk_job Job self i = Inr j) (it_product (vals (params self))) js"
    by (simp add: prepare_jobs_loop_Inr_iff)
  then have len: "length js = n_tuples (params self)"
    by (auto dest: list_all2_lengthD simp: length_it_product n_tuples_vals)
  from js len show ?thesis
    using n_tuples_split [of "params self"] n_tuples_singletons [of "seed_part (params self)"]
    by (auto simp: prepare_jobs_def)
qed

text \<open>The ParameterSet of the specification's example, with a seed range of one value each.\<close>

definition example_batch :: "(pyval, unit, (pyval, unit) Job) BatchSender" where
  "example_batch =
     \<lparr>params = [(''L'', [IntV 8, IntV 10]), (''dW'', [FloatV ''1.0'', FloatV ''2.0'']),
                (''min_seed'', [IntV 1]), (''max_seed'', [IntV 10])],
      syspar_keys = [''L''], modpar_keys = [''dW''], auxpar_keys = [],
      cmd_opt = [], slurm_opt = [], redef = (), jobs = None, storage = None,
      subdirs_dict = []\<rparr>"

theorem prepare_jobs_count_witness:
  "\<exists>js. prepare_jobs Job_init example_batch = Inr (example_batch\<lparr>jobs := Some js\<rparr>) \<and>
        length js = 4 \<and> n_tuples (non_seed (params example_batch)) = 4"
proof -
  have "\<forall>i\<in>set (it_product (vals (params example_batch))).
          \<exists>j. mk_job Job_init example_batch i = Inr j"
    by (simp add: mk_job_def Job_init_def)
  from prepare_jobs_count [OF this] obtain js where
    "prepare_jobs Job_init example_batch = Inr (example_batch\<lparr>jobs := Some js\<rparr>)"
    "length js = n_tuples (params example_batch)"
    by blast
  moreover have "n_tuples (params example_batch) = 4"
    by (simp add: n_tuples_def example_batch_def)
  moreover have "n_tuples (non_seed (params example_batch)) = 4"
    by (simp add: n_tuples_def non_seed_def seed_keys_def example_batch_def)
  ultimately show ?thesis by auto
qed

text \<open>
  A seed key with two values doubles the batch: for \<open>{L: [8], min_seed: [1, 2]}\<close> two jobs
  are built, while the product over the non-seed keys is one.
\<close>

definition two_seeds_batch :: "(pyval, unit, (pyval, unit) Job) BatchSender" where
  "two_seeds_batch =
     \<lparr>params = [(''L'', [IntV 8]), (''min_seed'', [IntV 1, IntV 2])],
      syspar_keys = [''L''], modpar_keys = [''min_seed''], auxpar_keys = [],
      cmd_opt = [], slurm_opt = [], redef = (), jobs = None, storage = None,
      subdirs_dict = []\<rparr>"

theorem prepare_jobs_count_seed_counterexample:
  "map_sum id (map_option length \<circ> jobs) (prepare_jobs Job_init two_seeds_batch) = Inr (Some 2) \<and>
   n_tuples (non_seed (params two_seeds_batch)) = 1"
  by (simp add: prepare_jobs_def two_seeds_batch_def vals_def keys_def dict_of_def Let_def
        Job_init_def n_tuples_def non_seed_def seed_keys_def)



section \<open>The file system\<close>

text \<open>
  A POSIX directory tree without symbolic links and without permissions: every entry is
  named by the list of components of its absolute path and is a directory or a regular
  file with its content; the root (the empty list) is always a directory.  \<open>cwd\<close> is
  the working directory, against which relative paths are resolved.
\<close>

datatype node = Dir | File string

record filesystem =
  entries :: "string list \<rightharpoonup> node"
  cwd :: "string list"

definition node_at :: "filesystem \<Rightarrow> string list \<Rightarrow> node option" where
  "node_at fs p = (if p = [] then Some Dir else entries fs p)"

text \<open>
  \<open>split_slash p\<close> is \<open>p.split('/')\<close>.  \<open>walk\<close> resolves a list of components from
  the entry \<open>cur\<close>: before each component is taken, the entry reached so far must be a
  directory; an empty component and \<open>.\<close> stay, \<open>..\<close> goes to the parent.
\<close>

fun split_slash :: "string \<Rightarrow> string list" where
  "split_slash [] = [[]]"
| "split_slash (c # cs) =
     (if c = CHR ''/'' then [] # split_slash cs
      else (case split_slash cs of [] \<Rightarrow> [[c]] | w # ws \<Rightarrow> (c # w) # ws))"

fun walk :: "filesystem \<Rightarrow> string list \<Rightarrow> string list \<Rightarrow> py_error + string list" where
  "walk fs cur [] = Inr cur"
| "walk fs cur (c # cs) =
     (case node_at fs cur of
        None \<Rightarrow> Inl FileNotFoundError
      | Some (File _) \<Rightarrow> Inl NotADirectoryError
      | Some Dir \<Rightarrow>
          walk fs (if c = [] \<or> c = ''.'' then cur
                   else if c = ''..'' then butlast cur
                   else cur @ [c]) cs)"

definition start :: "filesystem \<Rightarrow> string \<Rightarrow> string list" where
  "start fs p = (if take 1 p = ''/'' then [] else cwd fs)"

text \<open>
  \<open>os.path.isdir\<close>: true when the path resolves to a directory, false on every failure.
\<close>

definition isdir :: "filesystem \<Rightarrow> string \<Rightarrow> bool" where
  "isdir fs p =
     (p \<noteq> [] \<and>
      (case walk fs (start fs p) (split_slash p) of
         Inl e \<Rightarrow> False
       | Inr q \<Rightarrow> node_at fs q = Some Dir))"

text \<open>
  \<open>os.mkdir\<close>: trailing slashes are ignored; the parent must resolve to a directory
  (\<open>FileNotFoundError\<close>, \<open>NotADirectoryError\<close> otherwise), and the entry itself must not
  exist (\<open>FileExistsError\<close>).  The result is the outcome and the file system after the call.
\<close>

definition strip_trailing :: "string list \<Rightarrow> string list" where
  "strip_trailing cs = rev (dropWhile (\<lambda>c. c = []) (rev cs))"

definition mkdir :: "filesystem \<Rightarrow> string \<Rightarrow> (py_error + unit) \<times> filesystem" where
  "mkdir fs p =
     (if p = [] then (Inl FileNotFoundError, fs)
      else
        let comps = strip_trailing (split_slash p) in
        if comps = [] then (Inl FileExistsError, fs)
        else
          (case walk fs (start fs p) (butlast comps) of
             Inl e \<Rightarrow> (Inl e, fs)
           | Inr parent \<Rightarrow>
               (case node_at fs parent of
                  None \<Rightarrow> (Inl FileNotFoundError, fs)
                | Some (File _) \<Rightarrow> (Inl NotADirectoryError, fs)
                | Some Dir \<Rightarrow>
                    (let name = last comps in
                     if name = ''.'' \<or> name = ''..'' then (Inl FileExistsError, fs)
                     else if node_at fs (parent @ [name]) \<noteq> None then (Inl FileExistsError, fs)
                     else (Inr (), fs\<lparr>entries := (entries fs)(parent @ [name] \<mapsto> Dir)\<rparr>)))))"

text \<open>
  \<open>BatchSender.prepare_folders\<close>.  The loop over \<open>subdirs_list\<close> threads the local
  dictionary \<open>subdirs_dict\<close> and the file system; an error of \<open>os.mkdir\<close> ends it.  The
  state is the object together with the file system; \<open>self.storage\<close> is assigned first.
\<close>

definition subdirs_list :: "string list" where
  "subdirs_list = [''tmp'', ''log'', ''results'', ''log_deps'']"

fun prepare_folders_loop ::
  "string \<Rightarrow> string list \<Rightarrow> (string, string) dict \<Rightarrow> filesystem
     \<Rightarrow> (py_error + (string, string) dict) \<times> filesystem" where
  "prepare_folders_loop storage_path [] d fs = (Inr d, fs)"
| "prepare_folders_loop storage_path (subdir # rest) d fs =
     (let sub_path = storage_path @ ''/'' @ subdir @ ''/'';
          d' = AList.update subdir sub_path d
      in if \<not> isdir fs sub_path
         then (case mkdir fs sub_path of
                 (Inl e, fs') \<Rightarrow> (Inl e, fs')
               | (Inr u, fs') \<Rightarrow> prepare_folders_loop storage_path rest d' fs')
         else prepare_folders_loop storage_path rest d' fs)"

definition prepare_folders ::
  "string \<Rightarrow> ('v, 'r, 'j) BatchSender \<times> filesystem
     \<Rightarrow> (py_error + unit) \<times> ('v, 'r, 'j) BatchSender \<times> filesystem" where
  "prepare_folders storage_path st =
     (let self = (fst st)\<lparr>storage := Some storage_path\<rparr>; fs = snd st in
      case (if \<not> isdir fs storage_path then mkdir fs storage_path else (Inr (), fs)) of
        (Inl e, fs1) \<Rightarrow> (Inl e, self, fs1)
      | (Inr u, fs1) \<Rightarrow>
          (case prepare_folders_loop storage_path subdirs_list [] fs1 of
             (Inl e, fs2) \<Rightarrow> (Inl e, self, fs2)
           | (Inr d, fs2) \<Rightarrow>
               (Inr (), self\<lparr>subdirs_dict := foldl (\<lambda>a (k, v). AList.update k v a) (subdirs_dict self) d\<rparr>, fs2)))"

text \<open>
  \<open>extends fs fs'\<close>: every entry of \<open>fs\<close> is an entry of \<open>fs'\<close> with the same kind and the
  same content, and the working directory is the same.
\<close>

section \<open>Properties of the folder layout\<close>

definition extends :: "filesystem \<Rightarrow> filesystem \<Rightarrow> bool" where
  "extends fs fs' \<longleftrightarrow> cwd fs' = cwd fs \<and> (\<forall>p n. entries fs p = Some n \<longrightarrow> entries fs' p = Some n)"

lemma extends_refl: "extends fs fs" by (simp add: extends_def)
lemma extends_trans: "extends a b \<Longrightarrow> extends b c \<Longrightarrow> extends a c" by (simp add: extends_def)

lemma extends_node_at: "extends fs fs' \<Longrightarrow> node_at fs p = Some n \<Longrightarrow> node_at fs' p = Some n"
  by (auto simp: extends_def node_at_def split: if_splits)

lemma walk_extends: "extends fs fs' \<Longrightarrow> walk fs cur cs = Inr q \<Longrightarrow> walk fs' cur cs = Inr q"
proof (induction cs arbitrary: cur)
  case Nil then show ?case by simp
next
  case (Cons c cs)
  from Cons.prems(2) have d: "node_at fs cur = Some Dir"
    by (auto split: option.splits node.splits)
  with Cons.prems(1) have d': "node_at fs' cur = Some Dir" by (rule extends_node_at)
  from Cons.prems(2) d d' Cons.IH [OF Cons.prems(1)] show ?case by simp
qed

lemma start_extends: "extends fs fs' \<Longrightarrow> start fs' p = start fs p"
  by (simp add: start_def extends_def)

lemma isdir_extends:
  assumes "extends fs fs'" and "isdir fs p"
  shows "isdir fs' p"
proof -
  from assms(2) obtain q where p: "p \<noteq> []"
    and w: "walk fs (start fs p) (split_slash p) = Inr q" and d: "node_at fs q = Some Dir"
    by (auto simp: isdir_def split: sum.splits)
  from walk_extends [OF assms(1) w] have "walk fs' (start fs' p) (split_slash p) = Inr q"
    by (simp add: start_extends [OF assms(1)])
  with p extends_node_at [OF assms(1) d] show ?thesis by (simp add: isdir_def)
qed

lemma walk_append:
  "walk fs cur (xs @ ys) = (case walk fs cur xs of Inl e \<Rightarrow> Inl e | Inr q \<Rightarrow> walk fs q ys)"
  by (induction xs arbitrary: cur) (auto split: option.splits node.splits)

lemma walk_empties:
  "node_at fs cur = Some Dir \<Longrightarrow> \<forall>c\<in>set cs. c = [] \<Longrightarrow> walk fs cur cs = Inr cur"
  by (induction cs) auto

lemma strip_trailing_decomp:
  "\<exists>es. cs = strip_trailing cs @ es \<and> (\<forall>c\<in>set es. c = [])"
proof -
  have "rev (dropWhile (\<lambda>c. c = []) (rev cs)) @ rev (takeWhile (\<lambda>c. c = []) (rev cs)) = cs"
    by (metis rev_append rev_rev_ident takeWhile_dropWhile_id)
  moreover have "\<forall>c\<in>set (rev (takeWhile (\<lambda>c. c = []) (rev cs))). c = []"
    by (auto dest: set_takeWhileD)
  ultimately show ?thesis unfolding strip_trailing_def by metis
qed

lemma strip_trailing_last: "strip_trailing cs \<noteq> [] \<Longrightarrow> last (strip_trailing cs) \<noteq> []"
  unfolding strip_trailing_def
  by (metis (mono_tags, lifting) hd_dropWhile last_rev rev_is_Nil_conv)

lemma mkdir_Inr:
  assumes "mkdir fs p = (Inr u, fs')"
  shows "\<exists>q. entries fs q = None \<and> fs' = fs\<lparr>entries := (entries fs)(q \<mapsto> Dir)\<rparr>"
  using assms
  by (auto simp: mkdir_def Let_def node_at_def split: if_splits sum.splits option.splits node.splits)

lemma mkdir_extends: "mkdir fs p = (Inr u, fs') \<Longrightarrow> extends fs fs'"
  by (auto dest!: mkdir_Inr simp: extends_def)

lemma mkdir_Inl: "mkdir fs p = (Inl e, fs') \<Longrightarrow> fs' = fs"
  by (auto simp: mkdir_def Let_def split: if_splits sum.splits option.splits node.splits)

lemma mkdir_isdir:
  assumes "mkdir fs p = (Inr u, fs')"
  shows "isdir fs' p"
proof -
  let ?comps = "strip_trailing (split_slash p)"
  from assms have p: "p \<noteq> []" and ne: "?comps \<noteq> []"
    by (auto simp: mkdir_def Let_def split: if_splits)
  from assms p ne obtain parent where
    w: "walk fs (start fs p) (butlast ?comps) = Inr parent" and
    d: "node_at fs parent = Some Dir" and
    n: "last ?comps \<noteq> ''.''" "last ?comps \<noteq> ''..''" and
    fs': "fs' = fs\<lparr>entries := (entries fs)(parent @ [last ?comps] \<mapsto> Dir)\<rparr>"
    by (auto simp: mkdir_def Let_def split: if_splits sum.splits option.splits node.splits)
  have ext: "extends fs fs'" using assms by (rule mkdir_extends)
  obtain es where es: "split_slash p = ?comps @ es" "\<forall>c\<in>set es. c = []"
    using strip_trailing_decomp by blast
  have l: "last ?comps \<noteq> []" using ne by (rule strip_trailing_last)
  have c: "?comps = butlast ?comps @ [last ?comps]" using ne by simp
  have new: "node_at fs' (parent @ [last ?comps]) = Some Dir"
    by (simp add: fs' node_at_def)
  have "walk fs' (start fs' p) (butlast ?comps) = Inr parent"
    using walk_extends [OF ext w] by (simp add: start_extends [OF ext])
  moreover have "node_at fs' parent = Some Dir" using ext d by (rule extends_node_at)
  ultimately have "walk fs' (start fs' p) (butlast ?comps @ [last ?comps] @ es) = Inr (parent @ [last ?comps])"
    using n l new es(2) by (simp add: walk_append walk_empties)
  with c es(1) have "walk fs' (start fs' p) (split_slash p) = Inr (parent @ [last ?comps])"
    by (metis append.assoc)
  with p new show ?thesis by (simp add: isdir_def)
qed

lemma ensure_dir:
  assumes "(if \<not> isdir fs p then mkdir fs p else (Inr (), fs)) = (Inr u, fs')"
  shows "isdir fs' p \<and> extends fs fs'"
  using assms by (auto split: if_splits dest: mkdir_isdir mkdir_extends simp: extends_refl)

lemma loop_Inr:
  "prepare_folders_loop s subs d fs = (Inr d', fs') \<Longrightarrow>
     extends fs fs' \<and> (\<forall>sub\<in>set subs. isdir fs' (s @ ''/'' @ sub @ ''/'')) \<and>
     d' = foldl (\<lambda>a sub. AList.update sub (s @ ''/'' @ sub @ ''/'') a) d subs"
proof (induction subs arbitrary: d fs)
  case Nil then show ?case by (simp add: extends_refl)
next
  case (Cons sub subs)
  let ?p = "s @ ''/'' @ sub @ ''/''"
  let ?d = "AList.update sub ?p d"
  obtain r fs1 where m: "(if \<not> isdir fs ?p then mkdir fs ?p else (Inr (), fs)) = (r, fs1)"
    by (cases "(if \<not> isdir fs ?p then mkdir fs ?p else (Inr (), fs))") auto
  show ?case
  proof (cases r)
    case (Inl e)
    with m Cons.prems show ?thesis by (auto simp: Let_def split: if_splits)
  next
    case (Inr u)
    with m Cons.prems have l: "prepare_folders_loop s subs ?d fs1 = (Inr d', fs')"
      by (auto simp: Let_def split: if_splits)
    from m Inr have e: "isdir fs1 ?p \<and> extends fs fs1" using ensure_dir by blast
    from Cons.IH [OF l] e show ?thesis
      by (auto intro: extends_trans isdir_extends)
  qed
qed

lemma loop_noop:
  "\<forall>sub\<in>set subs. isdir fs (s @ ''/'' @ sub @ ''/'') \<Longrightarrow>
   prepare_folders_loop s subs d fs =
     (Inr (foldl (\<lambda>a sub. AList.update sub (s @ ''/'' @ sub @ ''/'') a) d subs), fs)"
  by (induction subs arbitrary: d) (auto simp: Let_def)


lemma merge_idem:
  fixes D :: "(string, string) dict"
  defines "upd \<equiv> (\<lambda>a (k, v). AList.update k v a)"
  assumes "distinct (map fst d)"
  shows "foldl upd (foldl upd D d) d = foldl upd D d"
proof -
  have m: "map_of (foldl upd D d) k = Some v" if "(k, v) \<in> set d" "distinct (map fst d)" for k v D d
    using that
  proof (induction d arbitrary: D rule: rev_induct)
    case Nil then show ?case by simp
  next
    case (snoc x xs)
    then show ?case
      by (cases x) (auto simp: upd_def AList.update_conv' rev_image_eqI)
  qed
  have "set d' \<subseteq> set d \<Longrightarrow> foldl upd (foldl upd D d) d' = foldl upd D d" for d'
  proof (induction d' rule: rev_induct)
    case Nil show ?case by simp
  next
    case (snoc x xs)
    obtain k v where x: "x = (k, v)" by (cases x)
    with snoc have "map_of (foldl upd D d) k = Some v" using m assms(2) by auto
    with snoc x show ?case by (simp add: upd_def AList.update_triv)
  qed
  then show ?thesis by simp
qed

definition loop_dict :: "string \<Rightarrow> (string, string) dict" where
  "loop_dict s = foldl (\<lambda>a sub. AList.update sub (s @ ''/'' @ sub @ ''/'') a) [] subdirs_list"

lemma loop_dict_distinct: "distinct (map fst (loop_dict s))"
  by (simp add: loop_dict_def subdirs_list_def)

text \<open>
  Claim C3.  When \<open>prepare_folders\<close> returns for a storage root (an error of \<open>os.mkdir\<close>
  is the only other outcome), the root and its four subdirectories \<open>tmp\<close>, \<open>log\<close>,
  \<open>results\<close>, \<open>log_deps\<close> are directories, every entry that existed before is unchanged,
  and running it a second time on the same root returns without error and leaves both
  the file system and the object exactly as they are: nothing is created or altered.
\<close>

theorem prepare_folders_idempotent:
  assumes "prepare_folders s (self, fs) = (Inr (), self', fs')"
  shows "isdir fs' s \<and>
         (\<forall>sub\<in>set subdirs_list. isdir fs' (s @ ''/'' @ sub @ ''/'')) \<and>
         extends fs fs' \<and>
         prepare_folders s (self', fs') = (Inr (), self', fs')"
proof -
  let ?self = "self\<lparr>storage := Some s\<rparr>"
  let ?upd = "\<lambda>a (k, v). AList.update k v a"
  from assms obtain fs1 d where
    r: "(if \<not> isdir fs s then mkdir fs s else (Inr (), fs)) = (Inr (), fs1)" and
    l: "prepare_folders_loop s subdirs_list [] fs1 = (Inr d, fs')" and
    s': "self' = ?self\<lparr>subdirs_dict := foldl ?upd (subdirs_dict ?self) d\<rparr>"
    by (auto simp: prepare_folders_def Let_def split: prod.splits sum.splits)
  from ensure_dir [OF r] have 1: "isdir fs1 s" "extends fs fs1" by auto
  from loop_Inr [OF l] have 2: "extends fs1 fs'"
    "\<forall>sub\<in>set subdirs_list. isdir fs' (s @ ''/'' @ sub @ ''/'')" "d = loop_dict s"
    by (auto simp: loop_dict_def)
  have root: "isdir fs' s" using 2(1) 1(1) by (rule isdir_extends)
  have again: "prepare_folders_loop s subdirs_list [] fs' = (Inr d, fs')"
    using loop_noop [OF 2(2), of "[]"] 2(3) by (simp add: loop_dict_def)
  have "foldl ?upd (foldl ?upd (subdirs_dict self) d) d = foldl ?upd (subdirs_dict self) d"
    using merge_idem [of d "subdirs_dict self"] loop_dict_distinct [of s] 2(3) by simp
  then have "prepare_folders s (self', fs') = (Inr (), self', fs')"
    using root again by (simp add: prepare_folders_def Let_def s')
  with root 2(2) 1(2) 2(1) show ?thesis by (blast intro: extends_trans)
qed


section \<open>Construction of the batch and the runner\<close>

text \<open>
  \<open>BatchSender.__init__\<close>: the attributes are stored, then \<open>prepare_jobs\<close> runs, then
  \<open>prepare_folders\<close>.  The result is the object or the exception raised, together with
  the file system as the call leaves it.
\<close>

definition init_attrs ::
  "(string, 'v list) dict \<Rightarrow> string list \<Rightarrow> string list \<Rightarrow> string list \<Rightarrow> string list
     \<Rightarrow> string list \<Rightarrow> 'r \<Rightarrow> ('v, 'r, 'j) BatchSender" where
  "init_attrs params' syspar_keys' modpar_keys' auxpar_keys' cmd_opt' slurm_opt' redef' =
     \<lparr>params = params', syspar_keys = syspar_keys', modpar_keys = modpar_keys',
      auxpar_keys = auxpar_keys', cmd_opt = cmd_opt', slurm_opt = slurm_opt', redef = redef',
      jobs = None, storage = None, subdirs_dict = []\<rparr>"

definition BatchSender_init ::
  "('v, 'r, 'j) job_ctor \<Rightarrow> (string, 'v list) dict \<Rightarrow> string list \<Rightarrow> string list \<Rightarrow> string list
     \<Rightarrow> string \<Rightarrow> string list \<Rightarrow> string list \<Rightarrow> 'r \<Rightarrow> filesystem
     \<Rightarrow> (py_error + ('v, 'r, 'j) BatchSender) \<times> filesystem" where
  "BatchSender_init Job params' syspar_keys' modpar_keys' auxpar_keys' storage' cmd_opt'
       slurm_opt' redef' fs =
     (let self = init_attrs params' syspar_keys' modpar_keys' auxpar_keys' cmd_opt' slurm_opt' redef'
      in case prepare_jobs Job self of
           Inl e \<Rightarrow> (Inl e, fs)
         | Inr self1 \<Rightarrow>
             (case prepare_folders storage' (self1, fs) of
                (Inl e, self2, fs') \<Rightarrow> (Inl e, fs')
              | (Inr u, self2, fs') \<Rightarrow> (Inr self2, fs')))"

text \<open>
  \<open>BatchSender.run_jobs\<close>.  Its arguments are handed unchanged to \<open>SubmittedScript\<close>
  (module \<open>scriptsub\<close>), which is not among the verified sources: the constructor is a
  parameter of the model, a function of the job, the batch, the arguments and the
  world \<open>'w\<close> (scripts written, scheduler, output), that returns the script object or
  raises, and leaves the world changed either way.  \<open>run_jobs\<close> has no \<open>try\<close>: an
  exception of the constructor leaves the loop.
\<close>

record 'm run_args =
  mode :: 'm
  queue :: bool
  time :: string
  nodes :: int
  ntasks :: int
  cputask :: int
  memcpu :: int
  module :: string
  sourcename :: string
  name :: string

type_synonym ('v, 'r, 'j, 'm, 's, 'w) script_ctor =
  "'j \<Rightarrow> ('v, 'r, 'j) BatchSender \<Rightarrow> 'm run_args \<Rightarrow> 'w \<Rightarrow> (py_error + 's) \<times> 'w"

fun run_jobs_loop ::
  "('v, 'r, 'j, 'm, 's, 'w) script_ctor \<Rightarrow> ('v, 'r, 'j) BatchSender \<Rightarrow> 'm run_args
     \<Rightarrow> 'j list \<Rightarrow> 'w \<Rightarrow> (py_error + unit) \<times> 'w" where
  "run_jobs_loop SubmittedScript self args [] w = (Inr (), w)"
| "run_jobs_loop SubmittedScript self args (job # rest) w =
     (case SubmittedScript job self args w of
        (Inl e, w') \<Rightarrow> (Inl e, w')
      | (Inr script, w') \<Rightarrow> run_jobs_loop SubmittedScript self args rest w')"

definition run_jobs ::
  "('v, 'r, 'j, 'm, 's, 'w) script_ctor \<Rightarrow> 'm run_args \<Rightarrow> ('v, 'r, 'j) BatchSender \<Rightarrow> 'w
     \<Rightarrow> (py_error + unit) \<times> 'w" where
  "run_jobs SubmittedScript args self w =
     (case jobs self of
        None \<Rightarrow> (Inl AttributeError, w)
      | Some js \<Rightarrow> run_jobs_loop SubmittedScript self args js w)"

lemma it_product_empty: "[] \<in> set xss \<Longrightarrow> it_product xss = []"
  by (induction xss) auto


lemma prepare_folders_jobs:
  "prepare_folders s (self, fs) = (r, self', fs') \<Longrightarrow> jobs self' = jobs self"
  by (auto simp: prepare_folders_def Let_def split: prod.splits sum.splits if_splits)


text \<open>
  Claim C8.  When some key of the ParameterSet has an empty value list, \<open>prepare_jobs\<close>
  returns zero jobs without raising, whatever the \<open>Job\<close> constructor does (it is never
  called); the construction of the batch then goes on to the preparation of the folders
  and has exactly its outcome; the batch it returns has no job, and \<open>run_jobs\<close> on it
  dispatches nothing and returns.
\<close>

theorem empty_value_list_zero_jobs:
  assumes "[] \<in> set (vals p)"
  shows "prepare_jobs Job (init_attrs p sk mk ak co so rd)
           = Inr ((init_attrs p sk mk ak co so rd)\<lparr>jobs := Some []\<rparr>) \<and>
         BatchSender_init Job p sk mk ak st co so rd fs =
           (case prepare_folders st ((init_attrs p sk mk ak co so rd)\<lparr>jobs := Some []\<rparr>, fs) of
              (Inl e, self2, fs') \<Rightarrow> (Inl e, fs')
            | (Inr u, self2, fs') \<Rightarrow> (Inr self2, fs')) \<and>
         (\<forall>self' fs'. BatchSender_init Job p sk mk ak st co so rd fs = (Inr self', fs') \<longrightarrow>
            jobs self' = Some [] \<and> run_jobs SubmittedScript args self' w = (Inr (), w))"
proof -
  let ?self = "init_attrs p sk mk ak co so rd"
  have pj: "prepare_jobs Job ?self = Inr (?self\<lparr>jobs := Some []\<rparr>)"
    using it_product_empty [OF assms] by (simp add: prepare_jobs_def init_attrs_def)
  then have init: "BatchSender_init Job p sk mk ak st co so rd fs =
           (case prepare_folders st (?self\<lparr>jobs := Some []\<rparr>, fs) of
              (Inl e, self2, fs') \<Rightarrow> (Inl e, fs')
            | (Inr u, self2, fs') \<Rightarrow> (Inr self2, fs'))"
    by (simp add: BatchSender_init_def Let_def)
  have "jobs self' = Some [] \<and> run_jobs SubmittedScript args self' w = (Inr (), w)"
    if "BatchSender_init Job p sk mk ak st co so rd fs = (Inr self', fs')" for self' fs'
  proof -
    from that init obtain u where "prepare_folders st (?self\<lparr>jobs := Some []\<rparr>, fs) = (Inr u, self', fs')"
      by (auto split: prod.splits sum.splits)
    then have "jobs self' = Some []" by (auto dest: prepare_folders_jobs)
    then show ?thesis by (simp add: run_jobs_def)
  qed
  with pj init show ?thesis by blast
qed

text \<open>
  A file system with a storage root \<open>data\<close> under the working directory that already has
  a \<open>results\<close> directory holding a result file.
\<close>

definition home_fs :: filesystem where
  "home_fs = \<lparr>entries = [[''home''] \<mapsto> Dir, [''home'', ''data''] \<mapsto> Dir,
                [''home'', ''data'', ''results''] \<mapsto> Dir,
                [''home'', ''data'', ''results'', ''old.hdf5''] \<mapsto> File ''abc''],
              cwd = [''home'']\<rparr>"

lemmas fs_eval = prepare_folders_def Let_def isdir_def mkdir_def start_def node_at_def
  strip_trailing_def subdirs_list_def

theorem prepare_folders_idempotent_witness:
  "fst (prepare_folders ''data'' (example_batch, home_fs)) = Inr () \<and>
   isdir (snd (snd (prepare_folders ''data'' (example_batch, home_fs)))) ''data/log_deps/'' \<and>
   entries (snd (snd (prepare_folders ''data'' (example_batch, home_fs))))
      [''home'', ''data'', ''results'', ''old.hdf5''] = Some (File ''abc'') \<and>
   prepare_folders ''data'' (snd (prepare_folders ''data'' (example_batch, home_fs)))
     = prepare_folders ''data'' (example_batch, home_fs)"
proof -
  let ?r = "prepare_folders ''data'' (example_batch, home_fs)"
  have ok: "fst ?r = Inr ()" by (simp add: fs_eval home_fs_def)
  then have h: "?r = (Inr (), fst (snd ?r), snd (snd ?r))"
    by (metis prod.collapse)
  have old: "entries home_fs [''home'', ''data'', ''results'', ''old.hdf5''] = Some (File ''abc'')"
    by (simp add: home_fs_def)
  from prepare_folders_idempotent [OF h] have
    "isdir (snd (snd ?r)) ''data/log_deps/''" "extends home_fs (snd (snd ?r))"
    "prepare_folders ''data'' (fst (snd ?r), snd (snd ?r)) = (Inr (), fst (snd ?r), snd (snd ?r))"
    by (simp_all add: subdirs_list_def)
  with ok old h show ?thesis by (simp add: extends_def)
qed

definition empty_fs :: filesystem where
  "empty_fs = \<lparr>entries = Map.empty, cwd = []\<rparr>"




definition failing_Job :: "(pyval, unit, unit) job_ctor" where
  "failing_Job add_items sys_keys mod_keys aux_keys rd = Inl (Raised ''configuration error'')"

definition empty_dW :: "(string, pyval list) dict" where
  "empty_dW = [(''L'', [IntV 8, IntV 10]), (''dW'', [])]"

theorem empty_value_list_zero_jobs_witness:
  "prepare_jobs failing_Job (init_attrs empty_dW [''L''] [''dW''] [] [] [] ())
     = Inr ((init_attrs empty_dW [''L''] [''dW''] [] [] [] ())\<lparr>jobs := Some []\<rparr>) \<and>
   (case BatchSender_init failing_Job empty_dW [''L''] [''dW''] [] ''data'' [] [] () empty_fs of
      (Inl e, fs') \<Rightarrow> False
    | (Inr self, fs') \<Rightarrow> jobs self = Some [] \<and> isdir fs' ''data/results/'')"
proof -
  have h: "[] \<in> set (vals empty_dW)"
    by (simp add: vals_def empty_dW_def)
  note t = empty_value_list_zero_jobs [OF h, of failing_Job "[''L'']" "[''dW'']" "[]" "[]" "[]" "()"
    "''data''" empty_fs]
  show ?thesis
    apply (rule conjI [OF t [THEN conjunct1]])
    apply (subst t [THEN conjunct2, THEN conjunct1])
    apply (simp add: init_attrs_def fs_eval empty_fs_def)
    done
qed

lemma run_jobs_loop_append:
  "run_jobs_loop S self args (xs @ ys) w =
     (case run_jobs_loop S self args xs w of
        (Inl e, w') \<Rightarrow> (Inl e, w')
      | (Inr u, w') \<Rightarrow> run_jobs_loop S self args ys w')"
  by (induction xs arbitrary: w) (auto split: prod.splits sum.splits)

lemma run_jobs_loop_Inr:
  "run_jobs_loop S self args js w = (Inr u, w') \<Longrightarrow>
     w' = foldl (\<lambda>w j. snd (S j self args w)) w js"
  by (induction js arbitrary: w) (auto split: prod.splits sum.splits)

lemma run_jobs_loop_total:
  "\<forall>j\<in>set js. \<forall>w. \<exists>s w'. S j self args w = (Inr s, w') \<Longrightarrow>
     \<exists>w'. run_jobs_loop S self args js w = (Inr (), w')"
proof (induction js arbitrary: w)
  case Nil show ?case by simp
next
  case (Cons j js)
  then obtain s w1 where "S j self args w = (Inr s, w1)" by fastforce
  moreover from Cons obtain w' where "run_jobs_loop S self args js w1 = (Inr (), w')" by fastforce
  ultimately show ?case by simp
qed

text \<open>
  Claim C7, as the code has it.  \<open>run_jobs\<close> calls \<open>SubmittedScript\<close> once per job, in
  the order of \<open>self.jobs\<close>: when it returns, the world is the one obtained by the calls
  for all jobs in sequence order; it returns whenever no call raises (a failure that the
  constructor absorbs does not stop the loop).  When the call for a job raises, the
  exception leaves \<open>run_jobs\<close> at once, and no later job is processed.
\<close>

theorem run_jobs_no_error_handling:
  assumes "jobs self = Some js"
  shows "(\<forall>w'. run_jobs S args self w = (Inr (), w') \<longrightarrow>
            w' = foldl (\<lambda>w j. snd (S j self args w)) w js) \<and>
         ((\<forall>j\<in>set js. \<forall>w. \<exists>s w'. S j self args w = (Inr s, w')) \<longrightarrow>
            (\<exists>w'. run_jobs S args self w = (Inr (), w'))) \<and>
         (\<forall>pre j post w1 e w2. js = pre @ j # post \<longrightarrow>
            run_jobs_loop S self args pre w = (Inr (), w1) \<longrightarrow> S j self args w1 = (Inl e, w2) \<longrightarrow>
            run_jobs S args self w = (Inl e, w2))"
  using assms
  by (auto simp: run_jobs_def run_jobs_loop_append dest: run_jobs_loop_Inr
      intro: run_jobs_loop_total [simplified])

text \<open>
  A constructor that appends the job to a log and raises for the jobs of \<open>rejected\<close>.
\<close>

definition logging_script ::
  "string list \<Rightarrow> (pyval, unit, string, string, unit, string list) script_ctor" where
  "logging_script rejected job self args w =
     (if job \<in> set rejected then (Inl (Raised ''dispatch failed''), w @ [job])
      else (Inr (), w @ [job]))"

definition abc_batch :: "(pyval, unit, string) BatchSender" where
  "abc_batch = (init_attrs [] [] [] [] [] [] ())\<lparr>jobs := Some [''a'', ''b'', ''c'']\<rparr>"

definition local_args :: "string run_args" where
  "local_args = \<lparr>mode = ''local'', queue = False, time = ''00:00:01'', nodes = 1, ntasks = 1,
     cputask = 1, memcpu = 4, module = ''Anaconda3/5.3.0'', sourcename = ''python3imbrie'',
     name = ''''\<rparr>"

theorem run_jobs_abort_counterexample:
  "run_jobs (logging_script [''b'']) local_args abc_batch []
     = (Inl (Raised ''dispatch failed''), [''a'', ''b''])"
  by (simp add: run_jobs_def abc_batch_def logging_script_def)

theorem run_jobs_no_error_handling_witness:
  "run_jobs (logging_script []) local_args abc_batch [] = (Inr (), [''a'', ''b'', ''c'']) \<and>
   run_jobs (logging_script [''b'']) local_args abc_batch []
     = (Inl (Raised ''dispatch failed''), [''a'', ''b''])"
proof -
  have j: "jobs abc_batch = Some [''a'', ''b'', ''c'']" by (simp add: abc_batch_def)
  note t = run_jobs_no_error_handling [OF j]
  have "\<exists>w'. run_jobs (logging_script []) local_args abc_batch [] = (Inr (), w')"
    using t [of "logging_script []" local_args "[]"] by (simp add: logging_script_def)
  then obtain w' where w': "run_jobs (logging_script []) local_args abc_batch [] = (Inr (), w')" ..
  with t [of "logging_script []" local_args "[]"]
  have "w' = foldl (\<lambda>w j. snd (logging_script [] j abc_batch local_args w)) [] [''a'', ''b'', ''c'']"
    by blast
  then have 1: "w' = [''a'', ''b'', ''c'']" by (simp add: logging_script_def)
  have 2: "run_jobs (logging_script [''b'']) local_args abc_batch []
     = (Inl (Raised ''dispatch failed''), [''a'', ''b''])"
    using t [of "logging_script [''b'']" local_args "[]", THEN conjunct2, THEN conjunct2,
        rule_format, of "[''a'']" "''b''" "[''c'']" "[''a'']" "Raised ''dispatch failed''" "[''a'', ''b'']"]
    by (simp add: logging_script_def)
  from w' 1 2 show ?thesis by simp
qed

section \<open>postprocessing/utils.py\<close>






subsection \<open>Strings\<close>

text \<open>
  \<open>find_sub sub s\<close> is the index of the first occurrence of \<open>sub\<close> in \<open>s\<close>, and
  \<open>find_py s sub\<close> is \<open>s.find(sub)\<close>, which is \<open>-1\<close> when there is none.
\<close>

fun find_sub :: "string \<Rightarrow> string \<Rightarrow> nat option" where
  "find_sub sub [] = (if sub = [] then Some 0 else None)"
| "find_sub sub (c # cs) =
     (if prefix sub (c # cs) then Some 0 else map_option Suc (find_sub sub cs))"

definition find_py :: "string \<Rightarrow> string \<Rightarrow> int" where
  "find_py s sub = (case find_sub sub s of None \<Rightarrow> - 1 | Some i \<Rightarrow> int i)"

lemma find_sub_bound: "find_sub sub s = Some i \<Longrightarrow> i + length sub \<le> length s"
proof (induction s arbitrary: i)
  case Nil then show ?case by (auto split: if_splits)
next
  case (Cons c cs)
  show ?case
  proof (cases "prefix sub (c # cs)")
    case True
    with Cons.prems show ?thesis by (auto dest: prefix_length_le)
  next
    case False
    with Cons.prems obtain j where "find_sub sub cs = Some j" "i = Suc j" by auto
    with Cons.IH show ?thesis by auto
  qed
qed

text \<open>
  \<open>split_py s sep\<close> is \<open>s.split(sep)\<close>: the parts between the occurrences of \<open>sep\<close>, found
  from the left without overlap; an empty separator raises \<open>ValueError\<close>.
\<close>

function split_parts :: "string \<Rightarrow> string \<Rightarrow> string list" where
  "split_parts sep s =
     (if sep = [] then [s]
      else (case find_sub sep s of
              None \<Rightarrow> [s]
            | Some i \<Rightarrow> take i s # split_parts sep (drop (i + length sep) s)))"
  by pat_completeness auto
termination
proof (relation "measure (\<lambda>(sep, s). length s)")
  show "wf (measure (\<lambda>(sep, s). length s))" by simp
next
  fix sep s :: string and i
  assume "sep \<noteq> []" "find_sub sep s = Some i"
  then have "0 < length sep" "i + length sep \<le> length s"
    by (auto dest: find_sub_bound)
  then have "length s - (i + length sep) < length s" by linarith
  then show "((sep, drop (i + length sep) s), (sep, s)) \<in> measure (\<lambda>(sep, s). length s)"
    by simp
qed

declare split_parts.simps [simp del]

definition split_py :: "string \<Rightarrow> string \<Rightarrow> py_error + string list" where
  "split_py s sep = (if sep = [] then Inl ValueError else Inr (split_parts sep s))"

text \<open>
  \<open>count_sub sep s\<close> is \<open>s.count(sep)\<close>: the number of occurrences of \<open>sep\<close> in \<open>s\<close>, counted
  from the left without overlap.
\<close>

function count_sub :: "string \<Rightarrow> string \<Rightarrow> nat" where
  "count_sub sep s =
     (if sep = [] then length s + 1
      else (case find_sub sep s of
              None \<Rightarrow> 0
            | Some i \<Rightarrow> 1 + count_sub sep (drop (i + length sep) s)))"
  by pat_completeness auto
termination
proof (relation "measure (\<lambda>(sep, s). length s)")
  show "wf (measure (\<lambda>(sep, s). length s))" by simp
next
  fix sep s :: string and i
  assume "sep \<noteq> []" "find_sub sep s = Some i"
  then have "0 < length sep" "i + length sep \<le> length s"
    by (auto dest: find_sub_bound)
  then have "length s - (i + length sep) < length s" by linarith
  then show "((sep, drop (i + length sep) s), (sep, s)) \<in> measure (\<lambda>(sep, s). length s)"
    by simp
qed

declare count_sub.simps [simp del]

text \<open>
  \<open>s.lstrip(ch)\<close> and \<open>s.rstrip(ch)\<close> for a single character.
\<close>

definition lstrip :: "char \<Rightarrow> string \<Rightarrow> string" where
  "lstrip ch s = dropWhile (\<lambda>c. c = ch) s"

definition rstrip :: "char \<Rightarrow> string \<Rightarrow> string" where
  "rstrip ch s = rev (dropWhile (\<lambda>c. c = ch) (rev s))"

text \<open>
  The branch \<open>mode == 0\<close> (the default) of \<open>_extract_disorder\<close>.  \<open>np.float\<close> is a
  parameter: it returns the float a text denotes, or \<open>None\<close> where Python raises
  \<open>ValueError\<close>.  Unpacking the result of \<open>split\<close> into two names raises \<open>ValueError\<close>
  unless there are exactly two parts.
\<close>

definition extract_disorder ::
  "(string \<Rightarrow> 'f option) \<Rightarrow> string \<Rightarrow> string \<Rightarrow> py_error + (string \<times> 'f)" where
  "extract_disorder np_float string disorder_key =
     (let string1 = ''_'' @ string;
          disorder_key1 = rstrip CHR ''_'' (lstrip CHR ''_'' disorder_key);
          disorder_key2 = ''_'' @ disorder_key1 @ ''_''
      in case split_py string1 disorder_key2 of
           Inl e \<Rightarrow> Inl e
         | Inr [rest1, dis_string] \<Rightarrow>
             (let splitter = find_py dis_string ''_'';
                  (disorder, rest2) =
                     (if splitter < 0 then (dis_string, [])
                      else (take (nat splitter) dis_string, drop (nat splitter) dis_string))
              in case np_float disorder of
                   None \<Rightarrow> Inl ValueError
                 | Some d \<Rightarrow> Inr (lstrip CHR ''_'' rest1 @ rest2, d))
         | Inr parts \<Rightarrow> Inl ValueError)"


subsection \<open>Properties of the disorder extraction\<close>

lemma length_split_parts: "sep \<noteq> [] \<Longrightarrow> length (split_parts sep s) = count_sub sep s + 1"
proof (induction sep s rule: split_parts.induct)
  case (1 sep s)
  then show ?case
    by (subst split_parts.simps, subst count_sub.simps) (auto split: option.splits)
qed








text \<open>
  A stand-in for \<open>np.float\<close> in the instances below: it accepts plain decimal numerals
  and returns their text.
\<close>

definition sample_float :: "string \<Rightarrow> string option" where
  "sample_float s =
     (if s \<noteq> [] \<and> list_all (\<lambda>c. c \<in> set ''0123456789.'') s then Some s else None)"

text \<open>
  Modelled from the spec: the descriptor of a Job (method of the missing class \<open>Job\<close>)
  is the underscore-delimited sequence of \<open>key_value\<close> pairs; this is also the format
  the docstring of \<open>_extract_disorder\<close> shows.  \<open>join sep xs\<close> is \<open>sep.join(xs)\<close>.
\<close>

fun join :: "string \<Rightarrow> string list \<Rightarrow> string" where
  "join sep [] = []"
| "join sep [x] = x"
| "join sep (x # y # ys) = x @ sep @ join sep (y # ys)"

definition key_value_string :: "(string \<times> string) list \<Rightarrow> string" where
  "key_value_string pairs = join ''_'' (map (\<lambda>(k, v). k @ ''_'' @ v) pairs)"


definition prefixed :: "string list \<Rightarrow> string" where
  "prefixed ts = concat (map ((#) CHR ''_'') ts)"


lemma prefixed_simps [simp]:
  "prefixed [] = []" "prefixed (t # ts) = CHR ''_'' # t @ prefixed ts"
  by (simp_all add: prefixed_def)





















text \<open>
  For the first key of several pairs the rest keeps the underscore that followed the
  value.
\<close>

lemma extract_disorder_first_key:
  "extract_disorder sample_float (key_value_string [(''L'', ''8''), (''dW'', ''1.0'')]) ''L''
     = Inr (''_dW_1.0'', ''8'')"
  by (simp add: key_value_string_def extract_disorder_def split_py_def split_parts.simps
        find_py_def lstrip_def rstrip_def sample_float_def Let_def)


section \<open>Descriptors and the order of the jobs\<close>


















end
